theory Spec2Isabelle
  imports Main "HOL-Library.Sublist"
begin

text \<open>
  A shallow embedding of \<open>bot.py\<close>, the Telegram bot of TG\_Bot\_CinemaGuide: the
  paginator \<open>split_message\<close>, the three provider search functions, the generative
  fallback and the message handler, with the properties of the specification stated and
  settled against them.
\<close>

section \<open>Python strings and slices\<close>

text \<open>
  A Python \<open>str\<close> is a sequence of Unicode code points; \<open>len\<close> counts code points.
  Code points are modelled as natural numbers, so the newline character is \<open>10\<close>.
  \<open>of_ascii\<close> embeds an ASCII literal.
\<close>

type_synonym str = "nat list"

definition of_ascii :: "string \<Rightarrow> str" where
  "of_ascii s = map of_char s"

text \<open>The slices \<open>s[:i]\<close> and \<open>s[i:]\<close>; a negative index counts from the end.\<close>

definition slice_to :: "'a list \<Rightarrow> int \<Rightarrow> 'a list" where
  "slice_to s i = (if i < 0 then take (nat (int (length s) + i)) s else take (nat i) s)"

definition slice_from :: "'a list \<Rightarrow> int \<Rightarrow> 'a list" where
  "slice_from s i = (if i < 0 then drop (nat (int (length s) + i)) s else drop (nat i) s)"

text \<open>\<open>s.rfind(c)\<close> for a single character: the highest index holding \<open>c\<close>, or \<open>-1\<close>.\<close>

fun rfind :: "'a list \<Rightarrow> 'a \<Rightarrow> int" where
  "rfind [] c = - 1"
| "rfind (x # xs) c =
     (let r = rfind xs c in if r \<noteq> - 1 then r + 1 else if x = c then 0 else - 1)"

section \<open>The paginator: \<open>split_message\<close>\<close>

text \<open>
  \<^verbatim>\<open>
  def split_message(message, max_length=4096):
      parts = []
      while message:
          if len(message) <= max_length:
              parts.append(message)
              break
          part = message[:max_length]
          last_newline = part.rfind('\n')
          if last_newline != -1:
              part = part[:last_newline]
          parts.append(part)
          message = message[len(part):]
      return parts
  \<close>
  The \<open>while\<close> loop is the recursion \<open>split_loop\<close> on the pair of \<open>parts\<close> and
  \<open>message\<close>. Nothing in the source bounds the number of iterations, so the loop lives in
  the option monad: \<open>None\<close> is a run that never returns.
\<close>

partial_function (option) split_loop :: "str list \<Rightarrow> str \<Rightarrow> int \<Rightarrow> str list option" where
  "split_loop parts message max_length =
     (if message = [] then Some parts
      else if int (length message) \<le> max_length then Some (parts @ [message])
      else (let part = slice_to message max_length;
                last_newline = rfind part 10;
                part = (if last_newline \<noteq> - 1 then slice_to part last_newline else part)
            in split_loop (parts @ [part]) (slice_from message (int (length part))) max_length))"

declare split_loop.simps [code]

definition split_message :: "str \<Rightarrow> int \<Rightarrow> str list option" where
  "split_message message max_length = split_loop [] message max_length"

section \<open>The string constants of the source\<close>

text \<open>
  The user-facing texts of the bot are Russian. They are given by their code points; each
  is described in English.
\<close>

text \<open>The trigger keyword, the Russian word for ``recommendations'' in lower case (\<open>rekomendatsii\<close>).\<close>

definition keyword :: str where
  "keyword =
     [1088, 1077, 1082, 1086, 1084, 1077, 1085, 1076, 1072, 1094, 1080, 1080]"

text \<open>The default title, Russian for ``title not given''.\<close>

definition title_unknown :: str where
  "title_unknown =
     [1053, 1072, 1079, 1074, 1072, 1085, 1080, 1077, 32, 1085, 1077, 32, 1091, 1082, 1072,
      1079, 1072, 1085, 1086]"

text \<open>The default year, Russian for ``release year not given''.\<close>

definition year_unknown :: str where
  "year_unknown =
     [1043, 1086, 1076, 32, 1074, 1099, 1087, 1091, 1089, 1082, 1072, 32, 1085, 1077, 32,
      1091, 1082, 1072, 1079, 1072, 1085]"

text \<open>The default author, Russian for ``author not given''.\<close>

definition author_unknown :: str where
  "author_unknown =
     [1040, 1074, 1090, 1086, 1088, 32, 1085, 1077, 32, 1091, 1082, 1072, 1079, 1072,
      1085]"

text \<open>The default publication date, Russian for ``year of publication not given''.\<close>

definition pubdate_unknown :: str where
  "pubdate_unknown =
     [1043, 1086, 1076, 32, 1080, 1079, 1076, 1072, 1085, 1080, 1103, 32, 1085, 1077, 32,
      1091, 1082, 1072, 1079, 1072, 1085]"

text \<open>The ``not found'' sentinel, Russian for ``Sorry, nothing found.''\<close>

definition not_found_text :: str where
  "not_found_text =
     [1048, 1079, 1074, 1080, 1085, 1080, 1090, 1077, 44, 32, 1085, 1080, 1095, 1077, 1075,
      1086, 32, 1085, 1077, 32, 1085, 1072, 1081, 1076, 1077, 1085, 1086, 46]"

text \<open>The providers' error sentinel, Russian for ``An error occurred while fetching data. Try again later.''\<close>

definition fetch_error_text :: str where
  "fetch_error_text =
     [1055, 1088, 1086, 1080, 1079, 1086, 1096, 1083, 1072, 32, 1086, 1096, 1080, 1073,
      1082, 1072, 32, 1087, 1088, 1080, 32, 1087, 1086, 1083, 1091, 1095, 1077, 1085, 1080,
      1080, 32, 1076, 1072, 1085, 1085, 1099, 1093, 46, 32, 1055, 1086, 1087, 1088, 1086,
      1073, 1091, 1081, 1090, 1077, 32, 1089, 1085, 1086, 1074, 1072, 32, 1087, 1086, 1079,
      1078, 1077, 46]"

text \<open>The type label of a movie line, Russian \<open>Film\<close>, with its colon and space.\<close>

definition film_label :: str where
  "film_label =
     [1060, 1080, 1083, 1100, 1084, 58, 32]"

text \<open>The type label of a series line, Russian \<open>Serial\<close>, with its colon and space.\<close>

definition series_label :: str where
  "series_label =
     [1057, 1077, 1088, 1080, 1072, 1083, 58, 32]"

text \<open>The type label of a book line, Russian \<open>Kniga\<close> (``book''), with its colon and space.\<close>

definition book_label :: str where
  "book_label =
     [1050, 1085, 1080, 1075, 1072, 58, 32]"

text \<open>The separator before the authors of a book line, Russian \<open>Avtory\<close> (``authors'').\<close>

definition authors_label :: str where
  "authors_label =
     [32, 45, 32, 1040, 1074, 1090, 1086, 1088, 1099, 58, 32]"

text \<open>The label line of the OMDb section, Russian for ``Recommendations from OMDb API:''.\<close>

definition label_omdb :: str where
  "label_omdb =
     [1056, 1077, 1082, 1086, 1084, 1077, 1085, 1076, 1072, 1094, 1080, 1080, 32, 1089, 32,
      79, 77, 68, 98, 32, 65, 80, 73, 58]"

text \<open>The label line of the TMDb section.\<close>

definition label_tmdb :: str where
  "label_tmdb =
     [1056, 1077, 1082, 1086, 1084, 1077, 1085, 1076, 1072, 1094, 1080, 1080, 32, 1089, 32,
      84, 77, 68, 98, 32, 65, 80, 73, 58]"

text \<open>The label line of the Google Books section.\<close>

definition label_books :: str where
  "label_books =
     [1056, 1077, 1082, 1086, 1084, 1077, 1085, 1076, 1072, 1094, 1080, 1080, 32, 1089, 32,
      71, 111, 111, 103, 108, 101, 32, 66, 111, 111, 107, 115, 32, 65, 80, 73, 58]"

text \<open>The prompt sent for an empty query, Russian for ``Please say what you want to find (for example, recommendations films).''\<close>

definition ask_text :: str where
  "ask_text =
     [1055, 1086, 1078, 1072, 1083, 1091, 1081, 1089, 1090, 1072, 44, 32, 1091, 1082, 1072,
      1078, 1080, 1090, 1077, 44, 32, 1095, 1090, 1086, 32, 1074, 1099, 32, 1093, 1086,
      1090, 1080, 1090, 1077, 32, 1085, 1072, 1081, 1090, 1080, 32, 40, 1085, 1072, 1087,
      1088, 1080, 1084, 1077, 1088, 44, 32, 1088, 1077, 1082, 1086, 1084, 1077, 1085, 1076,
      1072, 1094, 1080, 1080, 32, 1092, 1080, 1083, 1100, 1084, 1099, 41, 46]"

text \<open>The fallback notice for a poster, Russian for ``Could not send the poster: '' ...\<close>

definition poster_failed_prefix :: str where
  "poster_failed_prefix =
     [1053, 1077, 32, 1091, 1076, 1072, 1083, 1086, 1089, 1100, 32, 1086, 1090, 1087, 1088,
      1072, 1074, 1080, 1090, 1100, 32, 1087, 1086, 1089, 1090, 1077, 1088, 58, 32]"

text \<open>... and ``. Try again later.''\<close>

definition poster_failed_suffix :: str where
  "poster_failed_suffix =
     [46, 32, 1055, 1086, 1087, 1088, 1086, 1073, 1091, 1081, 1090, 1077, 32, 1089, 1085,
      1086, 1074, 1072, 32, 1087, 1086, 1079, 1078, 1077, 46]"

text \<open>The generative fallback's sentinel for a failed request, Russian for ``An error occurred while processing the request. Try again later.''\<close>

definition mistral_request_error_text :: str where
  "mistral_request_error_text =
     [1055, 1088, 1086, 1080, 1079, 1086, 1096, 1083, 1072, 32, 1086, 1096, 1080, 1073,
      1082, 1072, 32, 1087, 1088, 1080, 32, 1086, 1073, 1088, 1072, 1073, 1086, 1090, 1082,
      1077, 32, 1079, 1072, 1087, 1088, 1086, 1089, 1072, 46, 32, 1055, 1086, 1087, 1088,
      1086, 1073, 1091, 1081, 1090, 1077, 32, 1089, 1085, 1086, 1074, 1072, 32, 1087, 1086,
      1079, 1078, 1077, 46]"

text \<open>The generative fallback's sentinel for an answer without the expected keys, Russian for ``An error occurred in the answer from Mistral API. Try again later.''\<close>

definition mistral_answer_error_text :: str where
  "mistral_answer_error_text =
     [1055, 1088, 1086, 1080, 1079, 1086, 1096, 1083, 1072, 32, 1086, 1096, 1080, 1073,
      1082, 1072, 32, 1074, 32, 1086, 1090, 1074, 1077, 1090, 1077, 32, 1086, 1090, 32, 77,
      105, 115, 116, 114, 97, 108, 32, 65, 80, 73, 46, 32, 1055, 1086, 1087, 1088, 1086,
      1073, 1091, 1081, 1090, 1077, 32, 1089, 1085, 1086, 1074, 1072, 32, 1087, 1086, 1079,
      1078, 1077, 46]"

section \<open>Python values and the builtins the source uses\<close>

subsection \<open>String methods\<close>

text \<open>\<open>sep.join(xs)\<close> on a list of strings.\<close>

fun join :: "str \<Rightarrow> str list \<Rightarrow> str" where
  "join sep [] = []"
| "join sep [x] = x"
| "join sep (x # y # ys) = x @ sep @ join sep (y # ys)"

text \<open>\<open>sub in s\<close>: \<open>sub\<close> occurs in \<open>s\<close> as a contiguous substring.\<close>

fun contains :: "str \<Rightarrow> str \<Rightarrow> bool" where
  "contains sub [] = (sub = [])"
| "contains sub (c # cs) = (prefix sub (c # cs) \<or> contains sub cs)"

text \<open>
  \<open>s.replace(old, "")\<close> for a non-empty \<open>old\<close>: the occurrences of \<open>old\<close> are removed
  from left to right, without overlap.
\<close>

function remove_all :: "str \<Rightarrow> str \<Rightarrow> str" where
  "remove_all old [] = []"
| "remove_all old (c # cs) =
     (if old \<noteq> [] \<and> prefix old (c # cs)
      then remove_all old (drop (length old) (c # cs))
      else c # remove_all old cs)"
  by pat_completeness auto
termination
  by (relation "measure (\<lambda>(old, s). length s)") (auto simp: neq_Nil_conv)

text \<open>
  \<open>str.isspace\<close> on one code point: the characters \<open>str.strip()\<close> removes
  (tab to carriage return, the separators \<open>0x1C\<close> to \<open>0x1F\<close>, space, NEL, no-break space
  and the Unicode space separators).
\<close>

definition isspace :: "nat \<Rightarrow> bool" where
  "isspace c \<longleftrightarrow>
     (9 \<le> c \<and> c \<le> 13) \<or> (28 \<le> c \<and> c \<le> 32) \<or> c = 133 \<or> c = 160 \<or> c = 5760 \<or>
     (8192 \<le> c \<and> c \<le> 8202) \<or> c = 8232 \<or> c = 8233 \<or> c = 8239 \<or> c = 8287 \<or> c = 12288"

definition strip :: "str \<Rightarrow> str" where
  "strip s = rev (dropWhile isspace (rev (dropWhile isspace s)))"

text \<open>
  \<open>str.lower()\<close>. Python lowers every cased code point of Unicode; the model lowers the
  capital letters of Basic Latin (\<open>A\<close> to \<open>Z\<close>) and of the Cyrillic range
  \<open>U+0400\<close> to \<open>U+042F\<close>, which holds the Russian alphabet, and leaves every other code
  point as it is. On text of these two alphabets it is Python's function.
\<close>

definition lower_cp :: "nat \<Rightarrow> nat" where
  "lower_cp c =
     (if 65 \<le> c \<and> c \<le> 90 then c + 32
      else if 1040 \<le> c \<and> c \<le> 1071 then c + 32
      else if 1024 \<le> c \<and> c \<le> 1039 then c + 80
      else c)"

definition lower :: "str \<Rightarrow> str" where
  "lower s = map lower_cp s"

text \<open>\<open>s.split(c)[0]\<close>: the text before the first \<open>c\<close>, the whole text when there is none.\<close>

definition split_first :: "nat \<Rightarrow> str \<Rightarrow> str" where
  "split_first c s = takeWhile (\<lambda>x. x \<noteq> c) s"

text \<open>The decimal numeral of an integer, as \<open>str\<close> of a Python \<open>int\<close> gives it.\<close>

function str_of_nat :: "nat \<Rightarrow> str" where
  "str_of_nat n = (if n < 10 then [48 + n] else str_of_nat (n div 10) @ [48 + n mod 10])"
  by pat_completeness auto
termination
  by (relation "measure id") auto

definition str_of_int :: "int \<Rightarrow> str" where
  "str_of_int i = (if i < 0 then 45 # str_of_nat (nat (- i)) else str_of_nat (nat i))"

subsection \<open>Exceptions\<close>

text \<open>
  The exception classes that can arise in the modelled code. \<open>RequestException\<close> stands
  for every class of \<open>requests.exceptions\<close> below \<open>RequestException\<close> other than
  \<open>HTTPError\<close> (\<open>ConnectionError\<close>, \<open>Timeout\<close>, and since requests 2.27 the
  \<open>JSONDecodeError\<close> of \<open>response.json()\<close>); \<open>ValueError\<close> covers the
  \<open>json.JSONDecodeError\<close> that older versions of requests let through.
\<close>

datatype py_exc =
    RequestException | HTTPError | AttributeError | TypeError | KeyError | IndexError | ValueError

text \<open>What \<open>except requests.exceptions.RequestException\<close> catches.\<close>

definition is_RequestException :: "py_exc \<Rightarrow> bool" where
  "is_RequestException e \<longleftrightarrow> e = RequestException \<or> e = HTTPError"

text \<open>Sequencing of computations that may raise: the first exception ends the run.\<close>

definition bind_exc :: "py_exc + 'a \<Rightarrow> ('a \<Rightarrow> py_exc + 'b) \<Rightarrow> py_exc + 'b" where
  "bind_exc m f = (case m of Inl e \<Rightarrow> Inl e | Inr x \<Rightarrow> f x)"

subsection \<open>Values decoded from JSON\<close>

text \<open>
  The values \<open>response.json()\<close> returns. A \<open>float\<close> is identified by its \<open>repr\<close>, which
  determines it and is what an f-string prints. A \<open>dict\<close> is the list of its items in
  order, each key once; its keys are strings.
\<close>

datatype pyval =
    PNone
  | PBool bool
  | PInt int
  | PFloat str
  | PStr str
  | PList "pyval list"
  | PDict "(str \<times> pyval) list"

text \<open>The truth value of a value in a condition.\<close>

fun truthy :: "pyval \<Rightarrow> bool" where
  "truthy PNone = False"
| "truthy (PBool b) = b"
| "truthy (PInt i) = (i \<noteq> 0)"
| "truthy (PFloat r) = (r \<noteq> of_ascii ''0.0'' \<and> r \<noteq> of_ascii ''-0.0'')"
| "truthy (PStr s) = (s \<noteq> [])"
| "truthy (PList xs) = (xs \<noteq> [])"
| "truthy (PDict kvs) = (kvs \<noteq> [])"

text \<open>\<open>d.get(key, default)\<close>: only a \<open>dict\<close> has the method.\<close>

fun dict_get :: "pyval \<Rightarrow> str \<Rightarrow> pyval \<Rightarrow> py_exc + pyval" where
  "dict_get (PDict kvs) key dflt =
     Inr (case map_of kvs key of None \<Rightarrow> dflt | Some v \<Rightarrow> v)"
| "dict_get _ key dflt = Inl AttributeError"

text \<open>\<open>v[key]\<close> with a string key.\<close>

fun subscript_key :: "pyval \<Rightarrow> str \<Rightarrow> py_exc + pyval" where
  "subscript_key (PDict kvs) key =
     (case map_of kvs key of None \<Rightarrow> Inl KeyError | Some v \<Rightarrow> Inr v)"
| "subscript_key _ key = Inl TypeError"

text \<open>\<open>v[0]\<close>; a \<open>dict\<close> decoded from JSON has no key \<open>0\<close>.\<close>

fun subscript_0 :: "pyval \<Rightarrow> py_exc + pyval" where
  "subscript_0 (PList []) = Inl IndexError"
| "subscript_0 (PList (x # xs)) = Inr x"
| "subscript_0 (PStr []) = Inl IndexError"
| "subscript_0 (PStr (c # cs)) = Inr (PStr [c])"
| "subscript_0 (PDict kvs) = Inl KeyError"
| "subscript_0 _ = Inl TypeError"

text \<open>
  The items a \<open>for\<close> loop or \<open>join\<close> draws from a value: the elements of a list, the keys
  of a dict, the characters of a string; the other values are not iterable.
\<close>

fun py_iter :: "pyval \<Rightarrow> py_exc + pyval list" where
  "py_iter (PList xs) = Inr xs"
| "py_iter (PDict kvs) = Inr (map (\<lambda>kv. PStr (fst kv)) kvs)"
| "py_iter (PStr s) = Inr (map (\<lambda>c. PStr [c]) s)"
| "py_iter _ = Inl TypeError"

fun the_str :: "pyval \<Rightarrow> str option" where
  "the_str (PStr s) = Some s"
| "the_str _ = None"

text \<open>\<open>sep.join(v)\<close>: every item must be a string.\<close>

definition py_join :: "str \<Rightarrow> pyval \<Rightarrow> py_exc + str" where
  "py_join sep v =
     bind_exc (py_iter v) (\<lambda>items.
       if list_all (\<lambda>x. the_str x \<noteq> None) items
       then Inr (join sep (map (\<lambda>x. case the_str x of Some s \<Rightarrow> s | None \<Rightarrow> []) items))
       else Inl TypeError)"

text \<open>
  \<open>v.strip()\<close> and \<open>v.split('-')[0]\<close>: only a string has the methods.
\<close>

fun strip_value :: "pyval \<Rightarrow> py_exc + str" where
  "strip_value (PStr s) = Inr (strip s)"
| "strip_value _ = Inl AttributeError"

fun split_first_value :: "pyval \<Rightarrow> py_exc + str" where
  "split_first_value (PStr s) = Inr (split_first 45 s)"
| "split_first_value _ = Inl AttributeError"

text \<open>
  The text an f-string puts for \<open>{v}\<close>. The \<open>repr\<close> of a list or a dict (quoting and
  escaping of nested strings) is not modelled: it is the parameter \<open>container_repr\<close>.
\<close>

fun format_value :: "(pyval \<Rightarrow> str) \<Rightarrow> pyval \<Rightarrow> str" where
  "format_value container_repr PNone = of_ascii ''None''"
| "format_value container_repr (PBool b) = (if b then of_ascii ''True'' else of_ascii ''False'')"
| "format_value container_repr (PInt i) = str_of_int i"
| "format_value container_repr (PFloat r) = r"
| "format_value container_repr (PStr s) = s"
| "format_value container_repr (PList xs) = container_repr (PList xs)"
| "format_value container_repr (PDict kvs) = container_repr (PDict kvs)"

section \<open>The outside world\<close>

text \<open>
  What one call of \<open>requests.get\<close> or \<open>requests.post\<close> does: it raises an exception of
  \<open>requests\<close> (connection failure, timeout), or it returns a response with a status
  code, on which \<open>response.json()\<close> either raises or returns the decoded value.
\<close>

datatype http_result =
    Failed
  | Response int "py_exc + pyval"

text \<open>
  \<open>response = requests.get(...)\<close>, \<open>response.raise_for_status()\<close>,
  \<open>data = response.json()\<close>. \<open>raise_for_status\<close> raises \<open>HTTPError\<close> for the
  client and server error codes, 400 to 599, and for no other code.
\<close>

fun fetch_json :: "http_result \<Rightarrow> py_exc + pyval" where
  "fetch_json Failed = Inl RequestException"
| "fetch_json (Response status_code body) =
     (if 400 \<le> status_code \<and> status_code < 600 then Inl HTTPError else body)"

text \<open>The fetch of a poster: the request fails, or returns a status code and the bytes.\<close>

type_synonym bytes = "nat list"

datatype image_result =
    ImageFailed
  | ImageResponse int bytes

text \<open>
  The environment of a run: the API keys read at start-up, the answers of the provider
  endpoints by URL, of the generative endpoint by prompt and of the image hosts by poster
  reference, whether the chat platform accepts a photo with its caption, and the \<open>repr\<close>
  of lists and dicts.
\<close>

record world =
  OMDB_API_KEY :: str
  TMDB_API_KEY :: str
  GOOGLE_BOOKS_API_KEY :: str
  http_get :: "str \<Rightarrow> http_result"
  mistral_post :: "str \<Rightarrow> http_result"
  image_get :: "pyval \<Rightarrow> image_result"
  photo_accepted :: "bytes \<Rightarrow> str \<Rightarrow> bool"
  container_repr :: "pyval \<Rightarrow> str"

section \<open>The provider search functions\<close>

text \<open>A media entry: the poster reference and its caption.\<close>

type_synonym media = "pyval \<times> str"

text \<open>
  \<open>try: ... except requests.exceptions.RequestException: return sentinel\<close>: an exception
  of that class becomes the fallback value, any other exception leaves the function.
\<close>

definition except_RequestException :: "py_exc + 'a \<Rightarrow> 'a \<Rightarrow> py_exc + 'a" where
  "except_RequestException body fallback =
     (case body of
        Inl e \<Rightarrow> if is_RequestException e then Inr fallback else Inl e
      | Inr v \<Rightarrow> Inr v)"

subsection \<open>OMDb\<close>

text \<open>
  \<^verbatim>\<open>
  for item in results:
      title = item.get('Title', <title_unknown>)
      year = item.get('Year', <year_unknown>)
      poster_url = item.get('Poster', None)
      recommendations.append(f"{title} ({year})")
      if poster_url and poster_url != "N/A":
          media.append((poster_url, f"{title} ({year})"))
  \<close>
\<close>

fun omdb_loop ::
  "world \<Rightarrow> pyval list \<Rightarrow> str list \<Rightarrow> media list \<Rightarrow> py_exc + (str list \<times> media list)" where
  "omdb_loop w [] recommendations media = Inr (recommendations, media)"
| "omdb_loop w (item # results) recommendations media =
     bind_exc (dict_get item (of_ascii ''Title'') (PStr title_unknown)) (\<lambda>title.
     bind_exc (dict_get item (of_ascii ''Year'') (PStr year_unknown)) (\<lambda>year.
     bind_exc (dict_get item (of_ascii ''Poster'') PNone) (\<lambda>poster_url.
       let line = format_value (container_repr w) title @ of_ascii '' ('' @
                  format_value (container_repr w) year @ of_ascii '')''
       in omdb_loop w results (recommendations @ [line])
            (if truthy poster_url \<and> poster_url \<noteq> PStr (of_ascii ''N/A'')
             then media @ [(poster_url, line)] else media))))"

definition omdb_url :: "world \<Rightarrow> str \<Rightarrow> str" where
  "omdb_url w query =
     of_ascii ''http://www.omdbapi.com/?s='' @ query @ of_ascii ''&apikey='' @ OMDB_API_KEY w"

text \<open>
  \<^verbatim>\<open>
  try:
      response = requests.get(url, timeout=30)
      response.raise_for_status()
      data = response.json()
      if data.get('Response') == 'True':
          results = data.get('Search', [])
          ... the loop ...
          return "\n".join(recommendations), media
      else:
          return <not_found_text>, []
  except requests.exceptions.RequestException as e:
      return <fetch_error_text>, []
  \<close>
  The decorator \<open>lru_cache\<close> only replays a pair that an earlier call of this body
  returned for the same query; the model is the body.
\<close>

definition get_recommendations_omdb :: "world \<Rightarrow> str \<Rightarrow> py_exc + (str \<times> media list)" where
  "get_recommendations_omdb w query =
     except_RequestException
       (bind_exc (fetch_json (http_get w (omdb_url w query))) (\<lambda>data.
        bind_exc (dict_get data (of_ascii ''Response'') PNone) (\<lambda>response_field.
          if response_field = PStr (of_ascii ''True'')
          then bind_exc (dict_get data (of_ascii ''Search'') (PList [])) (\<lambda>results.
               bind_exc (py_iter results) (\<lambda>items.
               bind_exc (omdb_loop w items [] []) (\<lambda>(recommendations, media).
                 Inr (join [10] recommendations, media))))
          else Inr (not_found_text, []))))
       (fetch_error_text, [])"

subsection \<open>TMDb\<close>

definition TMDB_IMAGE_BASE_URL :: str where
  "TMDB_IMAGE_BASE_URL = of_ascii ''https://image.tmdb.org/t/p/w500''"

text \<open>
  \<open>date.split('-')[0] if date else <year_unknown>\<close>: the year shown for a release date.
\<close>

definition year_of :: "pyval \<Rightarrow> py_exc + str" where
  "year_of date = (if truthy date then split_first_value date else Inr year_unknown)"

text \<open>
  \<^verbatim>\<open>
  for item in results:
      if item.get('media_type') == 'movie':
          title = item.get('title', <title_unknown>)
          release_date = item.get('release_date', <year_unknown>)
          poster_path = item.get('poster_path', None)
          recommendations.append(f"<film_label>{title} ({<year_of release_date>})")
          if poster_path:
              poster_url = f"{TMDB_IMAGE_BASE_URL}{poster_path}"
              media.append((poster_url, f"<film_label>{title} ({<year_of release_date>})"))
      elif item.get('media_type') == 'tv':
          ... the same with 'name', 'first_air_date' and <series_label> ...
  \<close>
  An item of any other media type adds nothing.
\<close>

definition tmdb_item ::
  "world \<Rightarrow> pyval \<Rightarrow> str \<Rightarrow> str \<Rightarrow> str \<Rightarrow> py_exc + (str list \<times> media list)" where
  "tmdb_item w item label title_key date_key =
     bind_exc (dict_get item title_key (PStr title_unknown)) (\<lambda>title.
     bind_exc (dict_get item date_key (PStr year_unknown)) (\<lambda>release_date.
     bind_exc (dict_get item (of_ascii ''poster_path'') PNone) (\<lambda>poster_path.
     bind_exc (year_of release_date) (\<lambda>year.
       let line = label @ format_value (container_repr w) title @ of_ascii '' ('' @ year @
                  of_ascii '')''
       in Inr ([line],
               if truthy poster_path
               then [(PStr (TMDB_IMAGE_BASE_URL @ format_value (container_repr w) poster_path),
                      line)]
               else [])))))"

fun tmdb_loop ::
  "world \<Rightarrow> pyval list \<Rightarrow> str list \<Rightarrow> media list \<Rightarrow> py_exc + (str list \<times> media list)" where
  "tmdb_loop w [] recommendations media = Inr (recommendations, media)"
| "tmdb_loop w (item # results) recommendations media =
     bind_exc (dict_get item (of_ascii ''media_type'') PNone) (\<lambda>media_type.
       if media_type = PStr (of_ascii ''movie'')
       then bind_exc (tmdb_item w item film_label (of_ascii ''title'') (of_ascii ''release_date''))
              (\<lambda>(lines, posters).
                 tmdb_loop w results (recommendations @ lines) (media @ posters))
       else if media_type = PStr (of_ascii ''tv'')
       then bind_exc (tmdb_item w item series_label (of_ascii ''name'')
                        (of_ascii ''first_air_date''))
              (\<lambda>(lines, posters).
                 tmdb_loop w results (recommendations @ lines) (media @ posters))
       else tmdb_loop w results recommendations media)"

definition tmdb_url :: "world \<Rightarrow> str \<Rightarrow> str" where
  "tmdb_url w query =
     of_ascii ''https://api.themoviedb.org/3/search/multi?api_key='' @ TMDB_API_KEY w @
     of_ascii ''&language=ru-RU&query='' @ query @ of_ascii ''&page=1&include_adult=false''"

text \<open>
  As for OMDb, with \<open>if data.get('results'):\<close> as the test of success and
  \<open>results = data.get('results', [])\<close>.
\<close>

definition get_recommendations_tmdb :: "world \<Rightarrow> str \<Rightarrow> py_exc + (str \<times> media list)" where
  "get_recommendations_tmdb w query =
     except_RequestException
       (bind_exc (fetch_json (http_get w (tmdb_url w query))) (\<lambda>data.
        bind_exc (dict_get data (of_ascii ''results'') PNone) (\<lambda>found.
          if truthy found
          then bind_exc (dict_get data (of_ascii ''results'') (PList [])) (\<lambda>results.
               bind_exc (py_iter results) (\<lambda>items.
               bind_exc (tmdb_loop w items [] []) (\<lambda>(recommendations, media).
                 Inr (join [10] recommendations, media))))
          else Inr (not_found_text, []))))
       (fetch_error_text, [])"

subsection \<open>Google Books\<close>

text \<open>
  \<^verbatim>\<open>
  for item in results:
      volume_info = item.get('volumeInfo', {})
      title = volume_info.get('title', <title_unknown>)
      authors = ', '.join(volume_info.get('authors', [<author_unknown>])) \
                if volume_info.get('authors') else <author_unknown>
      published_date = volume_info.get('publishedDate', <pubdate_unknown>)
      image_links = volume_info.get('imageLinks', {})
      thumbnail_url = image_links.get('thumbnail', None)
      recommendations.append(
          f"<book_label>{title} ({published_date})<authors_label>{authors}")
      if thumbnail_url:
          media.append((thumbnail_url, <the same line>))
  \<close>
\<close>

fun books_loop ::
  "world \<Rightarrow> pyval list \<Rightarrow> str list \<Rightarrow> media list \<Rightarrow> py_exc + (str list \<times> media list)" where
  "books_loop w [] recommendations media = Inr (recommendations, media)"
| "books_loop w (item # results) recommendations media =
     bind_exc (dict_get item (of_ascii ''volumeInfo'') (PDict [])) (\<lambda>volume_info.
     bind_exc (dict_get volume_info (of_ascii ''title'') (PStr title_unknown)) (\<lambda>title.
     bind_exc (dict_get volume_info (of_ascii ''authors'') PNone) (\<lambda>has_authors.
     bind_exc (if truthy has_authors
               then bind_exc (dict_get volume_info (of_ascii ''authors'')
                                (PList [PStr author_unknown]))
                      (py_join (of_ascii '', ''))
               else Inr author_unknown) (\<lambda>authors.
     bind_exc (dict_get volume_info (of_ascii ''publishedDate'') (PStr pubdate_unknown))
       (\<lambda>published_date.
     bind_exc (dict_get volume_info (of_ascii ''imageLinks'') (PDict [])) (\<lambda>image_links.
     bind_exc (dict_get image_links (of_ascii ''thumbnail'') PNone) (\<lambda>thumbnail_url.
       let line = book_label @ format_value (container_repr w) title @ of_ascii '' ('' @
                  format_value (container_repr w) published_date @ of_ascii '')'' @
                  authors_label @ authors
       in books_loop w results (recommendations @ [line])
            (if truthy thumbnail_url then media @ [(thumbnail_url, line)] else media))))))))"

definition books_url :: "world \<Rightarrow> str \<Rightarrow> str" where
  "books_url w query =
     of_ascii ''https://www.googleapis.com/books/v1/volumes?q='' @ query @
     of_ascii ''&key='' @ GOOGLE_BOOKS_API_KEY w @ of_ascii ''&langRestrict=ru''"

definition get_recommendations_books :: "world \<Rightarrow> str \<Rightarrow> py_exc + (str \<times> media list)" where
  "get_recommendations_books w query =
     except_RequestException
       (bind_exc (fetch_json (http_get w (books_url w query))) (\<lambda>data.
        bind_exc (dict_get data (of_ascii ''items'') PNone) (\<lambda>found.
          if truthy found
          then bind_exc (dict_get data (of_ascii ''items'') (PList [])) (\<lambda>results.
               bind_exc (py_iter results) (\<lambda>items.
               bind_exc (books_loop w items [] []) (\<lambda>(recommendations, media).
                 Inr (join [10] recommendations, media))))
          else Inr (not_found_text, []))))
       (fetch_error_text, [])"

section \<open>The generative fallback\<close>

text \<open>
  \<^verbatim>\<open>
  try:
      response = requests.post(url, headers=headers, json=data, timeout=30)
      response.raise_for_status()
      data = response.json()
      return data['choices'][0]['message']['content'].strip()
  except requests.exceptions.HTTPError as e:        return <mistral_request_error_text>
  except requests.exceptions.RequestException as e: return <mistral_request_error_text>
  except KeyError as e:                             return <mistral_answer_error_text>
  \<close>
\<close>

definition get_mistral_response :: "world \<Rightarrow> str \<Rightarrow> py_exc + str" where
  "get_mistral_response w prompt =
     (case bind_exc (fetch_json (mistral_post w prompt)) (\<lambda>data.
           bind_exc (subscript_key data (of_ascii ''choices'')) (\<lambda>choices.
           bind_exc (subscript_0 choices) (\<lambda>choice.
           bind_exc (subscript_key choice (of_ascii ''message'')) (\<lambda>message.
           bind_exc (subscript_key message (of_ascii ''content'')) strip_value))))
      of Inl e \<Rightarrow>
           if e = HTTPError then Inr mistral_request_error_text
           else if is_RequestException e then Inr mistral_request_error_text
           else if e = KeyError then Inr mistral_answer_error_text
           else Inl e
       | Inr text \<Rightarrow> Inr text)"

section \<open>The message handler\<close>

text \<open>What the handler sends to the chat: a text, or a photo with its caption.\<close>

datatype reply =
    ReplyText str
  | ReplyPhoto bytes str

text \<open>
  The section of one provider in the reply,
  \<^verbatim>\<open>
  if recommendations_omdb:
      response += f"<label_omdb>\n{recommendations_omdb}\n\n"
      media.extend(media_omdb)
  \<close>
  applied to the text and the media list built so far.
\<close>

definition add_section :: "str \<Rightarrow> str \<times> media list \<Rightarrow> str \<times> media list \<Rightarrow> str \<times> media list" where
  "add_section label provider acc =
     (if fst provider \<noteq> []
      then (fst acc @ label @ [10] @ fst provider @ [10, 10], snd acc @ snd provider)
      else acc)"

text \<open>
  The three provider calls and the assembly of \<open>response\<close> and \<open>media\<close>, in the order
  OMDb, TMDb, Google Books. An exception that leaves a provider function leaves the
  handler: no call of the handler is inside a \<open>try\<close>.
\<close>

definition aggregate :: "world \<Rightarrow> str \<Rightarrow> py_exc + (str \<times> media list)" where
  "aggregate w query =
     bind_exc (get_recommendations_omdb w query) (\<lambda>omdb.
     bind_exc (get_recommendations_tmdb w query) (\<lambda>tmdb.
     bind_exc (get_recommendations_books w query) (\<lambda>books.
       Inr (add_section label_books books
             (add_section label_tmdb tmdb
               (add_section label_omdb omdb ([], [])))))))"

text \<open>
  The relay of one poster. Every exception inside the \<open>try\<close> (the request, the status
  check, the sending of the photo) ends in the same textual notice.
\<close>

definition relay :: "world \<Rightarrow> media \<Rightarrow> reply" where
  "relay w entry =
     (case image_get w (fst entry) of
        ImageFailed \<Rightarrow> ReplyText (poster_failed_prefix @ snd entry @ poster_failed_suffix)
      | ImageResponse status_code content \<Rightarrow>
          if \<not> (400 \<le> status_code \<and> status_code < 600) \<and> photo_accepted w content (snd entry)
          then ReplyPhoto content (snd entry)
          else ReplyText (poster_failed_prefix @ snd entry @ poster_failed_suffix))"

text \<open>
  The result of a handler run: \<open>None\<close> when it never returns, \<open>Inl\<close> the exception that
  left it (nothing has been sent by then), \<open>Inr\<close> the replies it sent, in order. Sending
  a text is taken to succeed.
\<close>

type_synonym outcome = "(py_exc + reply list) option"

definition send_parts :: "str \<Rightarrow> reply list \<Rightarrow> outcome" where
  "send_parts text rest =
     (case split_message text 4096 of
        None \<Rightarrow> None
      | Some parts \<Rightarrow> Some (Inr (map ReplyText parts @ rest)))"

definition recommend :: "world \<Rightarrow> str \<Rightarrow> outcome" where
  "recommend w query =
     (case aggregate w query of
        Inl e \<Rightarrow> Some (Inl e)
      | Inr (response, media) \<Rightarrow>
          if response \<noteq> [] then send_parts response (map (relay w) media)
          else Some (Inr [ReplyText not_found_text]))"

text \<open>
  \<^verbatim>\<open>
  user_message = update.message.text
  if <keyword> in user_message.lower():
      query = user_message.replace(<keyword>, "").strip()
      if not query:
          await update.message.reply_text(<ask_text>)
          return
      ... the providers, the reply, the posters ...
  else:
      mistral_response = get_mistral_response(user_message)
      parts = split_message(mistral_response)
      for part in parts:
          await update.message.reply_text(part)
  \<close>
\<close>

definition handle_message :: "world \<Rightarrow> str \<Rightarrow> outcome" where
  "handle_message w user_message =
     (if contains keyword (lower user_message)
      then (let query = strip (remove_all keyword user_message)
            in if query = [] then Some (Inr [ReplyText ask_text]) else recommend w query)
      else (case get_mistral_response w user_message of
              Inl e \<Rightarrow> Some (Inl e)
            | Inr mistral_response \<Rightarrow> send_parts mistral_response []))"

section \<open>Auxiliary notions for the statements and proofs\<close>

text \<open>The chunk that one iteration of the paginator's loop appends.\<close>

definition next_part :: "str \<Rightarrow> int \<Rightarrow> str" where
  "next_part message max_length =
     (let part = slice_to message max_length;
          last_newline = rfind part 10
      in if last_newline \<noteq> - 1 then slice_to part last_newline else part)"

text \<open>
  A loop state that reproduces itself: the text is longer than the window and the chunk
  cut from it is empty, so \<open>message[len(part):]\<close> is the same text again.
\<close>

definition stuck :: "str \<Rightarrow> int \<Rightarrow> bool" where
  "stuck message max_length \<longleftrightarrow>
     message \<noteq> [] \<and> \<not> int (length message) \<le> max_length \<and> next_part message max_length = []"


text \<open>The lines of a text, as \<open>text.split('\n')\<close> gives them.\<close>

fun lines_of :: "str \<Rightarrow> str list" where
  "lines_of [] = [[]]"
| "lines_of (c # cs) =
     (if c = 10 then [] # lines_of cs
      else (case lines_of cs of [] \<Rightarrow> [[c]] | l # ls \<Rightarrow> (c # l) # ls))"

text \<open>How often a label is a line of a text.\<close>

definition label_count :: "str \<Rightarrow> str \<Rightarrow> nat" where
  "label_count label text = count_list (lines_of text) label"

text \<open>A body text none of whose lines is one of the three labels.\<close>

definition label_free :: "str \<Rightarrow> bool" where
  "label_free body \<longleftrightarrow>
     label_count label_omdb body = 0 \<and> label_count label_tmdb body = 0 \<and>
     label_count label_books body = 0"

text \<open>The section of a provider in the reply text: nothing for an empty body, else the
  label line, the body and a blank line.\<close>

definition section_text :: "str \<Rightarrow> str \<Rightarrow> str" where
  "section_text label body = (if body = [] then [] else label @ [10] @ body @ [10, 10])"

text \<open>A world in which every provider endpoint and the generative endpoint give the
  same answer, no poster can be fetched, and the keys are \<open>k1\<close>, \<open>k2\<close>, \<open>k3\<close>.\<close>

definition world_with :: "http_result \<Rightarrow> world" where
  "world_with r =
     \<lparr>OMDB_API_KEY = of_ascii ''k1'', TMDB_API_KEY = of_ascii ''k2'',
      GOOGLE_BOOKS_API_KEY = of_ascii ''k3'', http_get = (\<lambda>url. r),
      mistral_post = (\<lambda>prompt. r), image_get = (\<lambda>poster. ImageFailed),
      photo_accepted = (\<lambda>content caption. True), container_repr = (\<lambda>v. [])\<rparr>"

text \<open>The TMDb item \<open>{"media_type": "tv", "name": "Foo", "first_air_date": "2020-05-01"}\<close>.\<close>

definition tv_item :: pyval where
  "tv_item =
     PDict [(of_ascii ''media_type'', PStr (of_ascii ''tv'')),
            (of_ascii ''name'', PStr (of_ascii ''Foo'')),
            (of_ascii ''first_air_date'', PStr (of_ascii ''2020-05-01''))]"

text \<open>A TMDb answer \<open>{"results": [item]}\<close>.\<close>

definition tmdb_answer :: "pyval \<Rightarrow> http_result" where
  "tmdb_answer item = Response 200 (Inr (PDict [(of_ascii ''results'', PList [item])]))"


text \<open>An OMDb answer \<open>{"Response": "True", "Search": [{"Title": t, "Year": "2020"}]}\<close>.\<close>

definition omdb_answer :: "int \<Rightarrow> str \<Rightarrow> http_result" where
  "omdb_answer status_code t =
     Response status_code
       (Inr (PDict [(of_ascii ''Response'', PStr (of_ascii ''True'')),
                    (of_ascii ''Search'',
                     PList [PDict [(of_ascii ''Title'', PStr t),
                                   (of_ascii ''Year'', PStr (of_ascii ''2020''))]])]))"


text \<open>An answer that serves all three endpoints at once: one OMDb result with a poster,
  one TMDb series with a poster path and one book with a thumbnail.\<close>

definition catalogue_answer :: http_result where
  "catalogue_answer =
     Response 200
       (Inr (PDict
         [(of_ascii ''Response'', PStr (of_ascii ''True'')),
          (of_ascii ''Search'',
           PList [PDict [(of_ascii ''Title'', PStr (of_ascii ''Foo'')),
                         (of_ascii ''Year'', PStr (of_ascii ''2020'')),
                         (of_ascii ''Poster'', PStr (of_ascii ''http://a/1.jpg''))]]),
          (of_ascii ''results'',
           PList [PDict [(of_ascii ''media_type'', PStr (of_ascii ''tv'')),
                         (of_ascii ''name'', PStr (of_ascii ''Foo'')),
                         (of_ascii ''first_air_date'', PStr (of_ascii ''2020-05-01'')),
                         (of_ascii ''poster_path'', PStr (of_ascii ''/2.jpg''))]]),
          (of_ascii ''items'',
           PList [PDict [(of_ascii ''volumeInfo'',
                          PDict [(of_ascii ''title'', PStr (of_ascii ''Foo'')),
                                 (of_ascii ''authors'', PList [PStr (of_ascii ''Ann'')]),
                                 (of_ascii ''publishedDate'', PStr (of_ascii ''2020'')),
                                 (of_ascii ''imageLinks'',
                                  PDict [(of_ascii ''thumbnail'',
                                          PStr (of_ascii ''http://c/3.jpg''))])])]])]))"




section \<open>Properties of the paginator\<close>

subsection \<open>Slices and \<open>rfind\<close>\<close>

lemma rfind_absent: "c \<notin> set xs \<Longrightarrow> rfind xs c = - 1"
  by (induction xs) (auto simp: Let_def)

lemma rfind_head: "c \<notin> set xs \<Longrightarrow> rfind (c # xs) c = 0"
  by (simp add: rfind_absent)

lemma length_slice_to_le: "length (slice_to s i) \<le> length s"
  by (simp add: slice_to_def) arith?

lemma length_slice_to_pos: "0 \<le> i \<Longrightarrow> int (length (slice_to s i)) \<le> i"
  by (simp add: slice_to_def) arith?

lemma length_slice_to_neg: "i < 0 \<Longrightarrow> s \<noteq> [] \<Longrightarrow> length (slice_to s i) < length s"
  by (cases s) (auto simp add: slice_to_def)

subsection \<open>One iteration\<close>

lemma split_loop_unfold:
  "split_loop parts message n =
     (if message = [] then Some parts
      else if int (length message) \<le> n then Some (parts @ [message])
      else split_loop (parts @ [next_part message n])
             (slice_from message (int (length (next_part message n)))) n)"
  by (subst split_loop.simps) (simp add: next_part_def Let_def)

lemma length_next_part_le: "0 \<le> n \<Longrightarrow> int (length (next_part message n)) \<le> n"
  unfolding next_part_def Let_def
  using length_slice_to_pos [of n message]
    length_slice_to_le [of "slice_to message n" "rfind (slice_to message n) 10"]
  by (auto split: if_splits)

lemma length_next_part_lt:
  assumes n: "n \<le> 0" and m: "message \<noteq> []"
  shows "length (next_part message n) < length message"
proof -
  have a: "length (slice_to message n) < length message"
  proof (cases "n = 0")
    case True
    then show ?thesis using m by (simp add: slice_to_def)
  next
    case False
    then show ?thesis using n m length_slice_to_neg [of n message] by simp
  qed
  have "length (next_part message n) \<le> length (slice_to message n)"
    unfolding next_part_def Let_def using length_slice_to_le by auto
  with a show ?thesis by simp
qed

lemma next_part_plain:
  assumes n: "0 \<le> n" and a: "10 \<notin> set message"
  shows "next_part message n = take (nat n) message"
proof -
  have "10 \<notin> set (take (nat n) message)" using a by (auto dest: in_set_takeD)
  then have "rfind (take (nat n) message) 10 = - 1" by (rule rfind_absent)
  with n show ?thesis by (simp add: next_part_def slice_to_def Let_def)
qed

subsection \<open>Inputs on which the paginator returns at once\<close>

lemma split_message_empty: "split_message [] n = Some []"
  by (simp add: split_message_def split_loop_unfold)

lemma split_message_short:
  "message \<noteq> [] \<Longrightarrow> int (length message) \<le> n \<Longrightarrow> split_message message n = Some [message]"
  by (simp add: split_message_def split_loop_unfold)

subsection \<open>A state that reproduces itself never returns\<close>

lemma split_loop_stuck_aux:
  assumes "split_loop parts message n = Some r"
  shows "\<not> stuck message n"
proof (rule split_loop.raw_induct [where P = "\<lambda>ps m k out. \<not> stuck m k", OF _ assms], goal_cases)
  case (1 f ps m k out)
  show ?case
  proof
    assume s: "stuck m k"
    then have "f (ps @ [[]]) m k = Some out"
      using 1(2) by (simp add: stuck_def next_part_def Let_def slice_from_def split: if_splits)
    then have "\<not> stuck m k" by (rule 1(1))
    with s show False by simp
  qed
qed

lemma split_loop_stuck: "stuck message n \<Longrightarrow> split_loop parts message n = None"
  using split_loop_stuck_aux [of parts message n] by (cases "split_loop parts message n") auto

lemma stuck_leading_newline: "stuck (10 # replicate 5000 97) 4096"
proof -
  have "slice_to (10 # replicate 5000 (97::nat)) 4096 = 10 # replicate 4095 97"
    by (simp add: slice_to_def take_Cons')
  moreover have "rfind (10 # replicate 4095 (97::nat)) 10 = 0"
    by (rule rfind_head) simp
  ultimately show ?thesis by (simp add: stuck_def next_part_def Let_def slice_to_def)
qed

text \<open>A short text that reaches such a state after two cuts.\<close>

lemma stuck_after_two_cuts: "stuck (of_ascii ''\<newline>three four'') 6"
  by code_simp

lemma split_message_diverges_small:
  "split_message (of_ascii ''one two\<newline>three four'') 6 = None"
proof -
  have p1: "next_part (of_ascii ''one two\<newline>three four'') 6 = of_ascii ''one tw''"
    by code_simp
  have p2: "next_part (of_ascii ''o\<newline>three four'') 6 = of_ascii ''o''"
    by code_simp
  have r1: "slice_from (of_ascii ''one two\<newline>three four'') (int (length (of_ascii ''one tw'')))
              = of_ascii ''o\<newline>three four''"
    by code_simp
  have r2: "slice_from (of_ascii ''o\<newline>three four'') (int (length (of_ascii ''o'')))
              = of_ascii ''\<newline>three four''"
    by code_simp
  have l1: "of_ascii ''one two\<newline>three four'' \<noteq> [] \<and>
            \<not> int (length (of_ascii ''one two\<newline>three four'')) \<le> 6"
    by code_simp
  have l2: "of_ascii ''o\<newline>three four'' \<noteq> [] \<and>
            \<not> int (length (of_ascii ''o\<newline>three four'')) \<le> 6"
    by code_simp
  have "split_loop [] (of_ascii ''one two\<newline>three four'') 6 =
          split_loop [of_ascii ''one tw''] (of_ascii ''o\<newline>three four'') 6"
    by (subst split_loop_unfold) (simp only: l1 p1 r1 if_False append_Nil)
  also have "\<dots> = split_loop [of_ascii ''one tw'', of_ascii ''o''] (of_ascii ''\<newline>three four'') 6"
    by (subst split_loop_unfold) (simp only: l2 p2 r2 if_False append.simps)
  also have "\<dots> = None"
    by (rule split_loop_stuck) (rule stuck_after_two_cuts)
  finally show ?thesis by (simp only: split_message_def)
qed

text \<open>
  Claim C1. The paginator is total: for every text and positive \<open>max_length\<close> it
  terminates and returns a chunk sequence; a text of at most \<open>max_length\<close> characters
  gives one chunk, the empty text none. The two special cases hold
  (\<open>split_message_short\<close>, \<open>split_message_empty\<close>); totality does not. On the
  5001-character text made of one newline followed by 5000 letters \<open>a\<close>, with the
  default \<open>max_length\<close> of 4096, the only newline of the window is at index 0, the chunk
  cut there is empty, \<open>message[len(part):]\<close> is the whole text again, and the loop never
  returns.
\<close>

theorem split_message_diverges: "split_message (10 # replicate 5000 97) 4096 = None"
  unfolding split_message_def by (rule split_loop_stuck) (rule stuck_leading_newline)

subsection \<open>No character is lost\<close>

lemma next_part_prefix: "\<exists>k. next_part m n = take k m"
proof -
  have "\<exists>k. slice_to s i = take k s" for s :: str and i
    by (auto simp: slice_to_def)
  then obtain a where a: "slice_to m n = take a m" by blast
  show ?thesis
  proof (cases "rfind (slice_to m n) 10 \<noteq> - 1")
    case False
    with a show ?thesis by (auto simp: next_part_def Let_def)
  next
    case True
    have "\<exists>k. slice_to (take a m) i = take k m" for i
      by (auto simp: slice_to_def)
    with True a show ?thesis by (auto simp: next_part_def Let_def)
  qed
qed

lemma next_part_rest:
  "next_part m n @ slice_from m (int (length (next_part m n))) = m"
proof -
  obtain k where k: "next_part m n = take k m" using next_part_prefix by blast
  have "take k m @ drop (length (take k m)) m = m"
    by (cases "k \<le> length m") (simp_all add: min_def)
  then show ?thesis by (simp add: k slice_from_def)
qed

lemma split_loop_lossless:
  assumes "split_loop parts message n = Some r"
  shows "concat r = concat parts @ message"
proof (rule split_loop.raw_induct
         [where P = "\<lambda>ps m k out. concat out = concat ps @ m", OF _ assms], goal_cases)
  case (1 f ps m k out)
  show ?case
  proof (cases "m = [] \<or> int (length m) \<le> k")
    case True
    with 1(2) show ?thesis by (auto split: if_splits)
  next
    case False
    with 1(2) have "f (ps @ [next_part m k]) (slice_from m (int (length (next_part m k)))) k
        = Some out"
      by (simp add: next_part_def Let_def)
    from 1(1) [OF this] show ?thesis by (simp add: next_part_rest)
  qed
qed

lemma split_message_lossless: "split_message message n = Some parts \<Longrightarrow> concat parts = message"
  using split_loop_lossless [of "[]" message n parts] by (simp add: split_message_def)

subsection \<open>The worked example with newlines\<close>

lemma split_loop_newline_example:
  "split_loop [] (of_ascii ''abcde\<newline>fghij\<newline>klmno'') 10 =
     Some [of_ascii ''abcde'', of_ascii ''\<newline>fghij'', of_ascii ''\<newline>klmno'']"
  by code_simp

text \<open>
  Claim C3, as stated: with \<open>max_length\<close> 10 the text \<open>abcde\nfghij\nklmno\<close> is cut into
  \<open>abcde\<close>, \<open>fghij\<close>, \<open>klmno\<close>, the chunks carrying no newline. The code keeps every
  character: the newline at which a window is cut opens the next chunk.
\<close>

theorem split_message_newline_example_spec_fails:
  "split_message (of_ascii ''abcde\<newline>fghij\<newline>klmno'') 10 \<noteq>
     Some [of_ascii ''abcde'', of_ascii ''fghij'', of_ascii ''klmno'']"
  by (simp add: split_message_def split_loop_newline_example) (simp add: of_ascii_def)

text \<open>
  Claim C3, amended: with \<open>max_length\<close> 10 the text \<open>abcde\nfghij\nklmno\<close> is cut at the
  newlines into \<open>abcde\<close>, \<open>\nfghij\<close>, \<open>\nklmno\<close>; the second and third chunk begin with
  the newline at which the cut fell.
\<close>

theorem split_message_newline_example:
  "split_message (of_ascii ''abcde\<newline>fghij\<newline>klmno'') 10 =
     Some [of_ascii ''abcde'', of_ascii ''\<newline>fghij'', of_ascii ''\<newline>klmno'']"
  by (simp only: split_message_def split_loop_newline_example)

subsection \<open>Text without newlines\<close>

lemma split_message_10000_chunks:
  assumes "length s = 10000" "10 \<notin> set s"
  shows "split_message s 4096 = Some [take 4096 s, take 4096 (drop 4096 s), drop 8192 s]"
proof -
  have p1: "next_part s 4096 = take 4096 s" using next_part_plain [of 4096 s] assms by simp
  have d: "10 \<notin> set (drop 4096 s)" using assms(2) by (auto dest: in_set_dropD)
  have p2: "next_part (drop 4096 s) 4096 = take 4096 (drop 4096 s)"
    using next_part_plain [of 4096 "drop 4096 s"] d by simp
  have s1: "split_loop [] s 4096 = split_loop [take 4096 s] (drop 4096 s) 4096"
    using assms(1) by (subst split_loop_unfold) (auto simp: p1 slice_from_def)
  have s2: "split_loop [take 4096 s] (drop 4096 s) 4096
              = split_loop [take 4096 s, take 4096 (drop 4096 s)] (drop 8192 s) 4096"
    using assms(1) by (subst split_loop_unfold) (auto simp: p2 slice_from_def)
  have s3: "split_loop [take 4096 s, take 4096 (drop 4096 s)] (drop 8192 s) 4096
              = Some [take 4096 s, take 4096 (drop 4096 s), drop 8192 s]"
    using assms(1) by (subst split_loop_unfold) auto
  show ?thesis by (simp add: split_message_def s1 s2 s3)
qed

text \<open>
  Claim C4. For every 10,000-character text without a newline, the paginator with
  \<open>max_length\<close> 4096 returns exactly 3 chunks, each of at most 4096 characters, whose
  concatenation is the text.
\<close>

theorem split_message_10000:
  assumes "length s = 10000" and "10 \<notin> set s"
  shows "\<exists>parts. split_message s 4096 = Some parts \<and> length parts = 3 \<and>
           (\<forall>p\<in>set parts. length p \<le> 4096) \<and> concat parts = s"
proof -
  have "drop 4096 (drop 4096 s) = drop 8192 s" by simp
  then have "take 4096 (drop 4096 s) @ drop 8192 s = drop 4096 s"
    using append_take_drop_id [of 4096 "drop 4096 s"] by simp
  then have c: "take 4096 s @ take 4096 (drop 4096 s) @ drop 8192 s = s" by simp
  have l: "length (drop 8192 s) \<le> 4096" using assms(1) by simp
  show ?thesis
    unfolding split_message_10000_chunks [OF assms] using c l by simp
qed

theorem split_message_10000_witness:
  "length (replicate 10000 (97::nat)) = 10000 \<and> 10 \<notin> set (replicate 10000 (97::nat)) \<and>
   (\<exists>parts. split_message (replicate 10000 97) 4096 = Some parts \<and> length parts = 3 \<and>
      (\<forall>p\<in>set parts. length p \<le> 4096) \<and> concat parts = replicate 10000 97)"
proof -
  have a: "length (replicate 10000 (97::nat)) = 10000" by simp
  have b: "10 \<notin> set (replicate 10000 (97::nat))" by simp
  from split_message_10000 [OF a b] a b show ?thesis by blast
qed

subsection \<open>The length of the chunks\<close>

lemma split_loop_bound_aux:
  assumes "split_loop parts message n = Some r"
  shows "(message = [] \<and> r = parts) \<or>
     (0 < n \<and> ((\<forall>p\<in>set parts. int (length p) \<le> n) \<longrightarrow> (\<forall>p\<in>set r. int (length p) \<le> n)))"
proof (rule split_loop.raw_induct [where P = "\<lambda>ps m k out. (m = [] \<and> out = ps) \<or>
     (0 < k \<and> ((\<forall>p\<in>set ps. int (length p) \<le> k) \<longrightarrow> (\<forall>p\<in>set out. int (length p) \<le> k)))",
     OF _ assms], goal_cases)
  case (1 f ps m k out)
  let ?part = "next_part m k"
  let ?rest = "slice_from m (int (length ?part))"
  show ?case
  proof (cases "m = []")
    case True
    with 1(2) show ?thesis by simp
  next
    case ne: False
    show ?thesis
    proof (cases "int (length m) \<le> k")
      case True
      with ne 1(2) have "out = ps @ [m]" by auto
      moreover from True ne have "0 < k" by (cases m) auto
      ultimately show ?thesis using True by auto
    next
      case False
      with ne 1(2) have call: "f (ps @ [?part]) ?rest k = Some out"
        by (simp add: next_part_def Let_def)
      from 1(1) [OF call] show ?thesis
      proof
        assume "?rest = [] \<and> out = ps @ [?part]"
        then have e: "length m \<le> length ?part" by (simp add: slice_from_def)
        have "0 < k"
        proof (rule ccontr)
          assume "\<not> 0 < k"
          then have "k \<le> 0" by simp
          then have "length ?part < length m" using ne by (rule length_next_part_lt)
          with e show False by simp
        qed
        then have "0 \<le> k" by simp
        then have "int (length ?part) \<le> k" by (rule length_next_part_le)
        with e False show ?thesis by simp
      next
        assume h: "0 < k \<and> ((\<forall>p\<in>set (ps @ [?part]). int (length p) \<le> k)
                      \<longrightarrow> (\<forall>p\<in>set out. int (length p) \<le> k))"
        then have "0 \<le> k" by simp
        then have "int (length ?part) \<le> k" by (rule length_next_part_le)
        with h show ?thesis by simp
      qed
    qed
  qed
qed

text \<open>
  Claim C8. For every text and every \<open>max_length\<close>, every chunk of the sequence the
  paginator returns has length at most \<open>max_length\<close>. (For \<open>max_length\<close> below 1 the
  paginator returns on the empty text only, with no chunk.)
\<close>

theorem split_message_chunk_bound:
  assumes "split_message message max_length = Some parts"
  shows "\<forall>p\<in>set parts. int (length p) \<le> max_length"
  using split_loop_bound_aux [of "[]" message max_length parts] assms
  by (auto simp: split_message_def)

theorem split_message_chunk_bound_witness:
  "split_message (of_ascii ''ab\<newline>cd\<newline>ef'') 4 =
     Some [of_ascii ''ab'', of_ascii ''\<newline>cd'', of_ascii ''\<newline>ef''] \<and>
   int (length (of_ascii ''ab'')) \<le> 4 \<and> int (length (of_ascii ''\<newline>cd'')) \<le> 4 \<and>
   int (length (of_ascii ''\<newline>ef'')) \<le> 4"
proof -
  have h: "split_message (of_ascii ''ab\<newline>cd\<newline>ef'') 4 =
     Some [of_ascii ''ab'', of_ascii ''\<newline>cd'', of_ascii ''\<newline>ef'']"
    by code_simp
  from split_message_chunk_bound [OF h] h show ?thesis by simp
qed

section \<open>Properties of the providers\<close>

subsection \<open>Failed requests\<close>






lemma http_get_world_with: "http_get (world_with r) url = r"
  by (simp add: world_with_def)




subsection \<open>The summary line of a TMDb series\<close>

lemma tmdb_tv_step:
  "tmdb_loop w (tv_item # results) recommendations media =
     tmdb_loop w results (recommendations @ [series_label @ of_ascii ''Foo (2020)'']) media"
  by (simp add: tv_item_def tmdb_item_def bind_exc_def year_of_def split_first_def of_ascii_def
        Let_def)

lemma tmdb_tv_answer:
  "get_recommendations_tmdb (world_with (tmdb_answer tv_item)) query
     = Inr (series_label @ of_ascii ''Foo (2020)'', [])"
proof -
  have "tmdb_loop (world_with (tmdb_answer tv_item)) [tv_item] [] []
          = Inr ([series_label @ of_ascii ''Foo (2020)''], [])"
    by (subst tmdb_tv_step) simp
  then show ?thesis
    by (simp add: get_recommendations_tmdb_def http_get_world_with tmdb_answer_def bind_exc_def
          except_RequestException_def)
qed

text \<open>
  Claim C7, as stated: for the TMDb item with media type \<open>tv\<close>, name \<open>Foo\<close> and first air
  date \<open>2020-05-01\<close> the summary line is \<open>Series: Foo (2020)\<close>. The line of the code
  does not begin with the English word.
\<close>

theorem tmdb_tv_line_not_english:
  "get_recommendations_tmdb (world_with (tmdb_answer tv_item)) (of_ascii ''foo'')
     \<noteq> Inr (of_ascii ''Series: Foo (2020)'', [])"
  by code_simp

text \<open>
  Claim C7, amended: for the TMDb item with media type \<open>tv\<close>, name \<open>Foo\<close> and first air
  date \<open>2020-05-01\<close> the summary line is the series type label of the code, the Russian
  word \<open>Serial\<close> in Cyrillic letters with a colon and a space, then the name and in
  parentheses the year before the first \<open>-\<close> of the date: \<open>Foo (2020)\<close>. This holds
  wherever the item stands in the result list, and it is the whole body text when the
  item is the only result.
\<close>

theorem tmdb_tv_line:
  "tmdb_loop w (tv_item # results) recommendations media =
     tmdb_loop w results (recommendations @ [series_label @ of_ascii ''Foo (2020)'']) media \<and>
   get_recommendations_tmdb (world_with (tmdb_answer tv_item)) query
     = Inr (series_label @ of_ascii ''Foo (2020)'', [])"
  using tmdb_tv_step tmdb_tv_answer by simp

subsection \<open>Joined lines\<close>

lemma join_Cons: "join sep (x # xs) = x @ (if xs = [] then [] else sep @ join sep xs)"
  by (cases xs) simp_all

lemma join_eq_Nil:
  assumes "\<forall>l\<in>set ls. l \<noteq> []" and "join sep ls = []"
  shows "ls = []"
  using assms by (cases ls) (simp_all add: join_Cons)

lemma join_nonempty:
  assumes "ls \<noteq> []" and "\<forall>l\<in>set ls. l \<noteq> []"
  shows "join sep ls \<noteq> []"
proof
  assume "join sep ls = []"
  with assms(2) have "ls = []" by (rule join_eq_Nil)
  with assms(1) show False by simp
qed

lemma not_found_text_ne: "not_found_text \<noteq> []"
  by (simp add: not_found_text_def)

lemma fetch_error_text_ne: "fetch_error_text \<noteq> []"
  by (simp add: fetch_error_text_def)

subsection \<open>The loops of the providers\<close>

lemma dict_get_cases:
  "dict_get v key dflt = Inl AttributeError \<or> (\<exists>x. dict_get v key dflt = Inr x)"
  by (cases v) simp_all

lemma omdb_loop_grows:
  assumes "omdb_loop w items recs media = Inr (recs', media')"
  shows "\<exists>ls ms. recs' = recs @ ls \<and> media' = media @ ms \<and> length ls = length items \<and>
           (\<forall>l\<in>set ls. l \<noteq> []) \<and> (ls = [] \<longrightarrow> ms = [])"
  using assms
proof (induction items arbitrary: recs media)
  case Nil
  then show ?case by simp
next
  case (Cons item items)
  from Cons.prems obtain line media0 where
    call: "omdb_loop w items (recs @ [line]) media0 = Inr (recs', media')"
    and line: "line \<noteq> []" and media0: "\<exists>ms0. media0 = media @ ms0"
    by (auto simp: bind_exc_def Let_def of_ascii_def split: sum.splits if_splits)
  from media0 obtain ms0 where ms0: "media0 = media @ ms0" ..
  from Cons.IH [OF call] obtain ls ms where
    "recs' = (recs @ [line]) @ ls" "media' = media0 @ ms" "length ls = length items"
    "\<forall>l\<in>set ls. l \<noteq> []"
    by blast
  with line ms0 show ?case
    by (intro exI [of _ "line # ls"] exI [of _ "ms0 @ ms"]) simp
qed

lemma tmdb_item_line:
  assumes "tmdb_item w item label title_key date_key = Inr (ls, ms)" and "label \<noteq> []"
  shows "ls \<noteq> [] \<and> (\<forall>l\<in>set ls. l \<noteq> [])"
  using assms
  by (auto simp: tmdb_item_def bind_exc_def Let_def split: sum.splits if_splits)

lemma film_label_ne: "film_label \<noteq> []"
  by (simp add: film_label_def)

lemma series_label_ne: "series_label \<noteq> []"
  by (simp add: series_label_def)

lemma tmdb_loop_grows:
  assumes "tmdb_loop w items recs media = Inr (recs', media')"
  shows "\<exists>ls ms. recs' = recs @ ls \<and> media' = media @ ms \<and>
           (\<forall>l\<in>set ls. l \<noteq> []) \<and> (ls = [] \<longrightarrow> ms = [])"
  using assms
proof (induction items arbitrary: recs media)
  case Nil
  then show ?case by simp
next
  case (Cons item items)
  from Cons.prems consider
      (skip) "tmdb_loop w items recs media = Inr (recs', media')"
    | (line) ls0 ms0 where "tmdb_loop w items (recs @ ls0) (media @ ms0) = Inr (recs', media')"
        "ls0 \<noteq> []" "\<forall>l\<in>set ls0. l \<noteq> []"
    by (auto simp: bind_exc_def split: sum.splits if_splits prod.splits
          dest: tmdb_item_line [OF _ film_label_ne] tmdb_item_line [OF _ series_label_ne])
  then show ?case
  proof cases
    case skip
    from Cons.IH [OF skip] show ?thesis .
  next
    case line
    from Cons.IH [OF line(1)] obtain ls ms where
      "recs' = (recs @ ls0) @ ls" "media' = (media @ ms0) @ ms" "\<forall>l\<in>set ls. l \<noteq> []"
      by blast
    with line(2,3) show ?thesis
      by (intro exI [of _ "ls0 @ ls"] exI [of _ "ms0 @ ms"]) auto
  qed
qed

lemma book_label_ne: "book_label \<noteq> []"
  by (simp add: book_label_def)

lemma books_loop_grows:
  assumes "books_loop w items recs media = Inr (recs', media')"
  shows "\<exists>ls ms. recs' = recs @ ls \<and> media' = media @ ms \<and> length ls = length items \<and>
           (\<forall>l\<in>set ls. l \<noteq> []) \<and> (ls = [] \<longrightarrow> ms = [])"
  using assms
proof (induction items arbitrary: recs media)
  case Nil
  then show ?case by simp
next
  case (Cons item items)
  from Cons.prems obtain line media0 where
    call: "books_loop w items (recs @ [line]) media0 = Inr (recs', media')"
    and line: "line \<noteq> []" and media0: "\<exists>ms0. media0 = media @ ms0"
    by (auto simp: bind_exc_def Let_def book_label_ne split: sum.splits if_splits)
  from media0 obtain ms0 where ms0: "media0 = media @ ms0" ..
  from Cons.IH [OF call] obtain ls ms where
    "recs' = (recs @ [line]) @ ls" "media' = media0 @ ms" "length ls = length items"
    "\<forall>l\<in>set ls. l \<noteq> []"
    by blast
  with line ms0 show ?case
    by (intro exI [of _ "line # ls"] exI [of _ "ms0 @ ms"]) simp
qed


subsection \<open>An empty body comes without media\<close>

lemma except_RequestException_Inr:
  assumes "except_RequestException body fallback = Inr r"
  shows "r = fallback \<or> body = Inr r"
  using assms by (auto simp: except_RequestException_def split: sum.splits if_splits)

lemma bind_exc_Inr: "bind_exc m f = Inr r \<longleftrightarrow> (\<exists>x. m = Inr x \<and> f x = Inr r)"
  by (cases m) (simp_all add: bind_exc_def)

lemma provider_shape:
  assumes "except_RequestException
             (bind_exc fetched (\<lambda>data.
              bind_exc (probe data) (\<lambda>x.
                if ok x
                then bind_exc (listing data) (\<lambda>results.
                     bind_exc (py_iter results) (\<lambda>items.
                     bind_exc (loop items) (\<lambda>(recommendations, media).
                       Inr (join [10] recommendations, media))))
                else Inr (nf, []))))
             (fe, []) = Inr (body, media)"
  shows "(body = fe \<and> media = []) \<or> (body = nf \<and> media = []) \<or>
         (\<exists>data x results items recs. probe data = Inr x \<and> ok x \<and>
            listing data = Inr results \<and> py_iter results = Inr items \<and>
            loop items = Inr (recs, media) \<and> body = join [10] recs)"
proof -
  from except_RequestException_Inr [OF assms] show ?thesis
  proof
    assume "(body, media) = (fe, [])"
    then show ?thesis by simp
  next
    assume "bind_exc fetched (\<lambda>data.
              bind_exc (probe data) (\<lambda>x.
                if ok x
                then bind_exc (listing data) (\<lambda>results.
                     bind_exc (py_iter results) (\<lambda>items.
                     bind_exc (loop items) (\<lambda>(recommendations, media).
                       Inr (join [10] recommendations, media))))
                else Inr (nf, []))) = Inr (body, media)"
    then obtain data x where p: "probe data = Inr x"
      and c: "(if ok x
                then bind_exc (listing data) (\<lambda>results.
                     bind_exc (py_iter results) (\<lambda>items.
                     bind_exc (loop items) (\<lambda>(recommendations, media).
                       Inr (join [10] recommendations, media))))
                else Inr (nf, [])) = Inr (body, media)"
      unfolding bind_exc_Inr by blast
    show ?thesis
    proof (cases "ok x")
      case False
      with c show ?thesis by simp
    next
      case True
      with c have "bind_exc (listing data) (\<lambda>results.
                     bind_exc (py_iter results) (\<lambda>items.
                     bind_exc (loop items) (\<lambda>(recommendations, media).
                       Inr (join [10] recommendations, media)))) = Inr (body, media)"
        by simp
      then obtain results items recs where "listing data = Inr results"
        "py_iter results = Inr items" "loop items = Inr (recs, media)"
        "join [10] recs = body"
        by (auto simp: bind_exc_Inr)
      with p True show ?thesis by blast
    qed
  qed
qed

lemma omdb_empty_body:
  assumes "get_recommendations_omdb w query = Inr (body, media)" and "body = []"
  shows "media = []"
proof -
  from provider_shape [OF assms(1) [unfolded get_recommendations_omdb_def]] assms(2)
  consider items recs where "omdb_loop w items [] [] = Inr (recs, media)" "body = join [10] recs"
    | "media = []"
    by blast
  then show ?thesis
  proof cases
    case 1
    from omdb_loop_grows [OF 1(1)]
    have a: "\<forall>l\<in>set recs. l \<noteq> []" and b: "recs = [] \<longrightarrow> media = []"
      by auto
    from 1(2) assms(2) have "join [10] recs = []" by simp
    with a have "recs = []" by (rule join_eq_Nil)
    with b show ?thesis by simp
  qed
qed

lemma tmdb_empty_body:
  assumes "get_recommendations_tmdb w query = Inr (body, media)" and "body = []"
  shows "media = []"
proof -
  from provider_shape [OF assms(1) [unfolded get_recommendations_tmdb_def]] assms(2)
  consider items recs where "tmdb_loop w items [] [] = Inr (recs, media)" "body = join [10] recs"
    | "media = []"
    by blast
  then show ?thesis
  proof cases
    case 1
    from tmdb_loop_grows [OF 1(1)]
    have a: "\<forall>l\<in>set recs. l \<noteq> []" and b: "recs = [] \<longrightarrow> media = []"
      by auto
    from 1(2) assms(2) have "join [10] recs = []" by simp
    with a have "recs = []" by (rule join_eq_Nil)
    with b show ?thesis by simp
  qed
qed

lemma py_iter_truthy: "truthy v \<Longrightarrow> py_iter v = Inr items \<Longrightarrow> items \<noteq> []"
  by (cases v) auto

lemma dict_get_truthy:
  assumes "dict_get d key PNone = Inr found" and "truthy found"
  shows "dict_get d key dflt = Inr found"
  using assms by (cases d) (auto split: option.splits)

lemma books_body_nonempty:
  assumes "get_recommendations_books w query = Inr (body, media)"
  shows "body \<noteq> []"
proof -
  from provider_shape [OF assms [unfolded get_recommendations_books_def]]
  show ?thesis
  proof (elim disjE exE conjE)
    assume "body = fetch_error_text"
    then show ?thesis by (simp add: fetch_error_text_ne)
  next
    assume "body = not_found_text"
    then show ?thesis by (simp add: not_found_text_ne)
  next
    fix data found results items recs
    assume found: "dict_get data (of_ascii ''items'') PNone = Inr found" "truthy found"
      and results: "dict_get data (of_ascii ''items'') (PList []) = Inr results"
      and items: "py_iter results = Inr items"
      and loop: "books_loop w items [] [] = Inr (recs, media)"
      and body: "body = join [10] recs"
    from dict_get_truthy [OF found] results have "results = found" by simp
    with found(2) items have "items \<noteq> []" using py_iter_truthy by blast
    then have n: "length items \<noteq> 0" by simp
    from books_loop_grows [OF loop]
    have len: "length recs = length items" and a: "\<forall>l\<in>set recs. l \<noteq> []" by auto
    from n have "length recs \<noteq> 0" unfolding len .
    then have "recs \<noteq> []" by simp
    then show ?thesis unfolding body using a by (rule join_nonempty)
  qed
qed

lemma books_empty_body:
  assumes "get_recommendations_books w query = Inr (body, media)" and "body = []"
  shows "media = []"
  using books_body_nonempty [OF assms(1)] assms(2) by simp

subsection \<open>The assembled reply\<close>

lemma add_section_text:
  "m = [] \<or> b \<noteq> [] \<Longrightarrow>
     add_section label (b, m) acc = (fst acc @ section_text label b, snd acc @ m)"
  by (auto simp: add_section_def section_text_def)

lemma aggregate_sections:
  assumes "get_recommendations_omdb w query = Inr (b1, m1)"
    and "get_recommendations_tmdb w query = Inr (b2, m2)"
    and "get_recommendations_books w query = Inr (b3, m3)"
  shows "aggregate w query =
           Inr (section_text label_omdb b1 @ section_text label_tmdb b2 @
                section_text label_books b3, m1 @ m2 @ m3)"
proof -
  have 1: "m1 = [] \<or> b1 \<noteq> []" using omdb_empty_body [OF assms(1)] by blast
  have 2: "m2 = [] \<or> b2 \<noteq> []" using tmdb_empty_body [OF assms(2)] by blast
  have 3: "m3 = [] \<or> b3 \<noteq> []" using books_empty_body [OF assms(3)] by blast
  show ?thesis
    by (simp add: aggregate_def assms bind_exc_def add_section_text [OF 1] add_section_text [OF 2]
          add_section_text [OF 3])
qed




subsection \<open>Lines of the reply\<close>

lemma lines_of_ne: "lines_of s \<noteq> []"
  by (induction s) (auto split: list.splits)

lemma lines_of_append_newline: "lines_of (a @ 10 # b) = lines_of a @ lines_of b"
proof (induction a)
  case Nil
  show ?case by simp
next
  case (Cons c a)
  obtain l ls where "lines_of a = l # ls" using lines_of_ne [of a] by (cases "lines_of a") auto
  with Cons show ?case by simp
qed

lemma lines_of_plain: "10 \<notin> set s \<Longrightarrow> lines_of s = [s]"
  by (induction s) auto

lemma label_count_append_newline:
  "label_count l (a @ 10 # b) = label_count l a + label_count l b"
  by (simp add: label_count_def lines_of_append_newline)

lemma label_count_Nil: "l \<noteq> [] \<Longrightarrow> label_count l [] = 0"
  by (simp add: label_count_def)

lemma label_count_plain:
  "10 \<notin> set s \<Longrightarrow> label_count l s = (if s = l then 1 else 0)"
  by (simp add: label_count_def lines_of_plain)

lemma label_count_section:
  assumes "l \<noteq> []" and "10 \<notin> set label"
  shows "label_count l (section_text label b @ rest) =
           (if b = [] then 0 else (if label = l then 1 else 0) + label_count l b) +
           label_count l rest"
proof (cases "b = []")
  case True
  then show ?thesis by (simp add: section_text_def)
next
  case False
  then have "section_text label b @ rest = label @ 10 # (b @ 10 # ([] @ 10 # rest))"
    by (simp add: section_text_def)
  moreover have "label_count l (label @ 10 # (b @ 10 # ([] @ 10 # rest))) =
      label_count l label + (label_count l b + (label_count l [] + label_count l rest))"
    by (simp only: label_count_append_newline)
  moreover have "label_count l label = (if label = l then 1 else 0)"
    using assms(2) by (rule label_count_plain)
  moreover have "label_count l [] = 0" using assms(1) by (rule label_count_Nil)
  ultimately show ?thesis using False by simp
qed

lemma labels_plain:
  "10 \<notin> set label_omdb" "10 \<notin> set label_tmdb" "10 \<notin> set label_books"
  by (simp_all add: label_omdb_def label_tmdb_def label_books_def)

lemma labels_distinct:
  "label_omdb \<noteq> label_tmdb" "label_omdb \<noteq> label_books" "label_tmdb \<noteq> label_books"
  "label_omdb \<noteq> []" "label_tmdb \<noteq> []" "label_books \<noteq> []"
  by (simp_all add: label_omdb_def label_tmdb_def label_books_def)


lemma label_count_three:
  assumes "l \<noteq> []"
  shows "label_count l (section_text label_omdb b1 @ section_text label_tmdb b2 @
                        section_text label_books b3) =
           (if b1 = [] then 0 else (if label_omdb = l then 1 else 0) + label_count l b1) +
           ((if b2 = [] then 0 else (if label_tmdb = l then 1 else 0) + label_count l b2) +
            (if b3 = [] then 0 else (if label_books = l then 1 else 0) + label_count l b3))"
proof -
  have 3: "label_count l (section_text label_books b3) =
             (if b3 = [] then 0 else (if label_books = l then 1 else 0) + label_count l b3)"
    using label_count_section [OF assms labels_plain(3), of b3 "[]"] label_count_Nil [OF assms]
    by simp
  have 2: "label_count l (section_text label_tmdb b2 @ section_text label_books b3) =
             (if b2 = [] then 0 else (if label_tmdb = l then 1 else 0) + label_count l b2) +
             label_count l (section_text label_books b3)"
    by (rule label_count_section [OF assms labels_plain(2)])
  have 1: "label_count l (section_text label_omdb b1 @
               (section_text label_tmdb b2 @ section_text label_books b3)) =
             (if b1 = [] then 0 else (if label_omdb = l then 1 else 0) + label_count l b1) +
             label_count l (section_text label_tmdb b2 @ section_text label_books b3)"
    by (rule label_count_section [OF assms labels_plain(1)])
  show ?thesis unfolding 1 2 3 ..
qed

lemma label_count_reply:
  assumes "label_free b1" "label_free b2" "label_free b3"
  shows "label_count label_omdb (section_text label_omdb b1 @ section_text label_tmdb b2 @
                        section_text label_books b3) = (if b1 = [] then 0 else 1)"
    and "label_count label_tmdb (section_text label_omdb b1 @ section_text label_tmdb b2 @
                        section_text label_books b3) = (if b2 = [] then 0 else 1)"
    and "label_count label_books (section_text label_omdb b1 @ section_text label_tmdb b2 @
                        section_text label_books b3) = (if b3 = [] then 0 else 1)"
proof -
  have f: "label_count label_omdb b1 = 0" "label_count label_omdb b2 = 0"
      "label_count label_omdb b3 = 0" "label_count label_tmdb b1 = 0"
      "label_count label_tmdb b2 = 0" "label_count label_tmdb b3 = 0"
      "label_count label_books b1 = 0" "label_count label_books b2 = 0"
      "label_count label_books b3 = 0"
    using assms by (simp_all add: label_free_def)
  have d: "(label_tmdb = label_omdb) = False" "(label_books = label_omdb) = False"
      "(label_omdb = label_tmdb) = False" "(label_books = label_tmdb) = False"
      "(label_omdb = label_books) = False" "(label_tmdb = label_books) = False"
    using labels_distinct by auto
  show "label_count label_omdb (section_text label_omdb b1 @ section_text label_tmdb b2 @
                        section_text label_books b3) = (if b1 = [] then 0 else 1)"
    by (simp add: label_count_three [OF labels_distinct(4)] f d)
  show "label_count label_tmdb (section_text label_omdb b1 @ section_text label_tmdb b2 @
                        section_text label_books b3) = (if b2 = [] then 0 else 1)"
    by (simp add: label_count_three [OF labels_distinct(5)] f d)
  show "label_count label_books (section_text label_omdb b1 @ section_text label_tmdb b2 @
                        section_text label_books b3) = (if b3 = [] then 0 else 1)"
    by (simp add: label_count_three [OF labels_distinct(6)] f d)
qed


section \<open>Properties of the message handler\<close>

subsection \<open>The aggregated reply\<close>

lemma catalogue_providers:
  "get_recommendations_omdb (world_with catalogue_answer) (of_ascii ''foo'') =
     Inr (of_ascii ''Foo (2020)'', [(PStr (of_ascii ''http://a/1.jpg''), of_ascii ''Foo (2020)'')])"
  "get_recommendations_tmdb (world_with catalogue_answer) (of_ascii ''foo'') =
     Inr (series_label @ of_ascii ''Foo (2020)'',
          [(PStr (of_ascii ''https://image.tmdb.org/t/p/w500/2.jpg''),
            series_label @ of_ascii ''Foo (2020)'')])"
  "get_recommendations_books (world_with catalogue_answer) (of_ascii ''foo'') =
     Inr (book_label @ of_ascii ''Foo (2020)'' @ authors_label @ of_ascii ''Ann'',
          [(PStr (of_ascii ''http://c/3.jpg''),
            book_label @ of_ascii ''Foo (2020)'' @ authors_label @ of_ascii ''Ann'')])"
  by code_simp+

lemma catalogue_label_free:
  "label_free (of_ascii ''Foo (2020)'')"
  "label_free (series_label @ of_ascii ''Foo (2020)'')"
  "label_free (book_label @ of_ascii ''Foo (2020)'' @ authors_label @ of_ascii ''Ann'')"
  by code_simp+

lemma label_title_providers:
  "get_recommendations_omdb (world_with (omdb_answer 200 (label_omdb @ 10 # of_ascii ''Foo'')))
     (of_ascii ''foo'') = Inr (label_omdb @ 10 # of_ascii ''Foo (2020)'', [])"
  "get_recommendations_tmdb (world_with (omdb_answer 200 (label_omdb @ 10 # of_ascii ''Foo'')))
     (of_ascii ''foo'') = Inr (not_found_text, [])"
  "get_recommendations_books (world_with (omdb_answer 200 (label_omdb @ 10 # of_ascii ''Foo'')))
     (of_ascii ''foo'') = Inr (not_found_text, [])"
  by code_simp+

lemma label_title_count:
  "label_count label_omdb (label_omdb @ 10 # of_ascii ''Foo (2020)'') = 1"
  "label_count label_omdb not_found_text = 0"
proof -
  have "10 \<notin> set (of_ascii ''Foo (2020)'')" "of_ascii ''Foo (2020)'' \<noteq> label_omdb"
    by (simp_all add: of_ascii_def label_omdb_def)
  then have "label_count label_omdb (of_ascii ''Foo (2020)'') = 0"
    by (simp add: label_count_plain)
  then show "label_count label_omdb (label_omdb @ 10 # of_ascii ''Foo (2020)'') = 1"
    by (simp add: label_count_append_newline label_count_plain labels_plain)
  have "10 \<notin> set not_found_text" "not_found_text \<noteq> label_omdb"
    by (simp_all add: not_found_text_def label_omdb_def)
  then show "label_count label_omdb not_found_text = 0"
    by (simp add: label_count_plain)
qed

text \<open>
  Claim C5, as stated: the media list of the aggregated reply is the concatenation of
  the providers' media lists in the order OMDb, TMDb, books, and the reply text contains
  the label line of each provider with a non-empty body exactly once. The second half
  fails when a provider's own text holds a label: for an OMDb title made of the OMDb
  label, a newline and \<open>Foo\<close>, the OMDb label is a line of the reply text twice.
\<close>

theorem aggregate_label_twice:
  "aggregate (world_with (omdb_answer 200 (label_omdb @ 10 # of_ascii ''Foo'')))
     (of_ascii ''foo'') =
     Inr (section_text label_omdb (label_omdb @ 10 # of_ascii ''Foo (2020)'') @
          section_text label_tmdb not_found_text @
          section_text label_books not_found_text, []) \<and>
   label_count label_omdb
     (section_text label_omdb (label_omdb @ 10 # of_ascii ''Foo (2020)'') @
      section_text label_tmdb not_found_text @
      section_text label_books not_found_text) = 2"
  using aggregate_sections [OF label_title_providers]
    label_count_three [OF labels_distinct(4), of "label_omdb @ 10 # of_ascii ''Foo (2020)''"
      not_found_text not_found_text]
    label_title_count labels_distinct not_found_text_ne
  by simp

text \<open>
  Claim C5, amended: for every query on which the three providers return, the media
  list of the aggregated reply is the concatenation of the providers' media lists in the
  order OMDb, TMDb, books, and the reply text is the concatenation, in the same order,
  of one section (label line, body text, blank line) for each provider whose body text
  is not empty; when no body text has a line equal to one of the three labels, the label
  of each provider with a non-empty body is a line of the reply text exactly once, and
  the label of a provider with an empty body is not a line of it.
\<close>

theorem aggregate_reply:
  assumes "get_recommendations_omdb w query = Inr (b1, m1)"
    and "get_recommendations_tmdb w query = Inr (b2, m2)"
    and "get_recommendations_books w query = Inr (b3, m3)"
  shows "aggregate w query =
           Inr (section_text label_omdb b1 @ section_text label_tmdb b2 @
                section_text label_books b3, m1 @ m2 @ m3) \<and>
         (label_free b1 \<and> label_free b2 \<and> label_free b3 \<longrightarrow>
            label_count label_omdb (section_text label_omdb b1 @ section_text label_tmdb b2 @
                section_text label_books b3) = (if b1 = [] then 0 else 1) \<and>
            label_count label_tmdb (section_text label_omdb b1 @ section_text label_tmdb b2 @
                section_text label_books b3) = (if b2 = [] then 0 else 1) \<and>
            label_count label_books (section_text label_omdb b1 @ section_text label_tmdb b2 @
                section_text label_books b3) = (if b3 = [] then 0 else 1))"
  using aggregate_sections [OF assms] label_count_reply [of b1 b2 b3] by simp

theorem aggregate_reply_witness:
  "aggregate (world_with catalogue_answer) (of_ascii ''foo'') =
     Inr (section_text label_omdb (of_ascii ''Foo (2020)'') @
          section_text label_tmdb (series_label @ of_ascii ''Foo (2020)'') @
          section_text label_books
            (book_label @ of_ascii ''Foo (2020)'' @ authors_label @ of_ascii ''Ann''),
          [(PStr (of_ascii ''http://a/1.jpg''), of_ascii ''Foo (2020)''),
           (PStr (of_ascii ''https://image.tmdb.org/t/p/w500/2.jpg''),
            series_label @ of_ascii ''Foo (2020)''),
           (PStr (of_ascii ''http://c/3.jpg''),
            book_label @ of_ascii ''Foo (2020)'' @ authors_label @ of_ascii ''Ann'')]) \<and>
   label_count label_omdb
     (section_text label_omdb (of_ascii ''Foo (2020)'') @
      section_text label_tmdb (series_label @ of_ascii ''Foo (2020)'') @
      section_text label_books
        (book_label @ of_ascii ''Foo (2020)'' @ authors_label @ of_ascii ''Ann'')) = 1 \<and>
   label_count label_tmdb
     (section_text label_omdb (of_ascii ''Foo (2020)'') @
      section_text label_tmdb (series_label @ of_ascii ''Foo (2020)'') @
      section_text label_books
        (book_label @ of_ascii ''Foo (2020)'' @ authors_label @ of_ascii ''Ann'')) = 1 \<and>
   label_count label_books
     (section_text label_omdb (of_ascii ''Foo (2020)'') @
      section_text label_tmdb (series_label @ of_ascii ''Foo (2020)'') @
      section_text label_books
        (book_label @ of_ascii ''Foo (2020)'' @ authors_label @ of_ascii ''Ann'')) = 1"
  using aggregate_reply [OF catalogue_providers] catalogue_label_free
  by (simp add: of_ascii_def)

subsection \<open>The empty query\<close>

lemma strip_whitespace_only:
  assumes "list_all isspace s"
  shows "strip s = []"
proof -
  from assms have "\<forall>x\<in>set s. isspace x" by (simp only: list_all_iff)
  then have d: "dropWhile isspace s = []" by simp
  show ?thesis unfolding strip_def d by simp
qed

lemma keyword_alone: "contains keyword (lower (keyword @ of_ascii ''   ''))"
  by code_simp

lemma keyword_alone_rest: "list_all isspace (remove_all keyword (keyword @ of_ascii ''   ''))"
  by code_simp

text \<open>
  Claim C6. When the message holds the trigger keyword and what is left after removing
  the keyword is empty or only whitespace, the handler sends the prompt to say what to
  look for and nothing else, whatever the providers would answer: no provider is
  called.
\<close>

theorem empty_query_rejected:
  assumes "contains keyword (lower user_message)"
    and "list_all isspace (remove_all keyword user_message)"
  shows "handle_message w user_message = Some (Inr [ReplyText ask_text])"
  using assms by (simp add: handle_message_def strip_whitespace_only)

theorem empty_query_rejected_witness:
  "contains keyword (lower (keyword @ of_ascii ''   '')) \<and>
   list_all isspace (remove_all keyword (keyword @ of_ascii ''   '')) \<and>
   (\<forall>w. handle_message w (keyword @ of_ascii ''   '') = Some (Inr [ReplyText ask_text]))"
  using empty_query_rejected [OF keyword_alone keyword_alone_rest] keyword_alone keyword_alone_rest
  by simp

subsection \<open>The fallback branch\<close>



lemma omdb_empty_search:
  "get_recommendations_omdb
     (world_with (Response 200 (Inr (PDict [(of_ascii ''Response'', PStr (of_ascii ''True''))]))))
     (of_ascii ''foo'') = Inr ([], [])"
  by code_simp




subsection \<open>Detection and removal of the keyword\<close>




























subsection \<open>An exception that leaves a provider\<close>

text \<open>
  The provider calls of the handler are in no \<open>try\<close>: when the first provider raises
  \<open>AttributeError\<close> on a JSON array, the handler ends with that exception and sends
  nothing, whatever the other providers would have answered.
\<close>

lemma handler_aborted_by_provider:
  "handle_message (world_with (Response 200 (Inr (PList [])))) (keyword @ of_ascii '' foo'')
     = Some (Inl AttributeError)"
  by code_simp

end
